theory Spec2Isabelle
  imports Main
begin

section \<open>The interface generator \<^verbatim>\<open>function_generator.py\<close>\<close>

text \<open>
  The script enumerates every argument-type tuple of length 0 to 4 over a fixed
  catalogue of type tags, crossed with every return type, prunes the candidates by a
  chain of \<^verbatim>\<open>continue\<close> filters and writes one Java functional interface per survivor.
  Type tags are the strings the script uses. An exception is a value of type \<open>error\<close>;
  the body of one loop iteration returns \<open>Inl e\<close> when it raises, \<open>Inr None\<close> when
  it leaves through \<^verbatim>\<open>continue\<close> and \<open>Inr (Some d)\<close> when it writes the interface \<open>d\<close>.
\<close>

subsection \<open>Python helpers\<close>

datatype error = AssertionError | AttributeError | IndexError | KeyError | TypeError

definition bind :: "error + 'a \<Rightarrow> ('a \<Rightarrow> error + 'b) \<Rightarrow> error + 'b" where
  "bind m f = (case m of Inl e \<Rightarrow> Inl e | Inr x \<Rightarrow> f x)"

definition py_assert :: "bool \<Rightarrow> (error + 'a) \<Rightarrow> error + 'a" where
  "py_assert c k = (if c then k else Inl AssertionError)"

text \<open>\<^verbatim>\<open>t[i]\<close> on a tuple, for a non-negative index.\<close>

definition tuple_get :: "'a list \<Rightarrow> nat \<Rightarrow> error + 'a" where
  "tuple_get t i = (if i < length t then Inr (t ! i) else Inl IndexError)"

text \<open>\<^verbatim>\<open>d[k]\<close> on a dict literal, kept as the list of its items in source order.\<close>

definition dict_get :: "('k \<times> 'v) list \<Rightarrow> 'k \<Rightarrow> error + 'v" where
  "dict_get d k = (case map_of d k of None \<Rightarrow> Inl KeyError | Some v \<Rightarrow> Inr v)"

text \<open>How an f-string prints a value that may be \<^verbatim>\<open>None\<close>.\<close>

definition fmt :: "string option \<Rightarrow> string" where
  "fmt v = (case v of None \<Rightarrow> ''None'' | Some s \<Rightarrow> s)"

definition endswith :: "string \<Rightarrow> string \<Rightarrow> bool" where
  "endswith s suf = (length suf \<le> length s \<and> drop (length s - length suf) s = suf)"

text \<open>\<^verbatim>\<open>sum((1 for a in argv if p(a)))\<close>\<close>

definition count_if :: "('a \<Rightarrow> bool) \<Rightarrow> 'a list \<Rightarrow> nat" where
  "count_if p xs = length (filter p xs)"

definition is_array :: "string \<Rightarrow> bool" where
  "is_array a = endswith a ''[]''"

text \<open>\<^verbatim>\<open>True in (a.endswith("[]") for a in argv)\<close>\<close>

definition any_array :: "string list \<Rightarrow> bool" where
  "any_array argv = (True \<in> set (map is_array argv))"

subsection \<open>The tables\<close>

definition type_names :: "(string \<times> string option) list" where
  "type_names =
    [(''void'', None),
     (''object'', Some ''''),
     (''boolean'', Some ''Boolean''),
     (''byte'', Some ''Byte''),
     (''char'', Some ''Char''),
     (''double'', Some ''Double''),
     (''float'', Some ''Float''),
     (''int'', Some ''Int''),
     (''long'', Some ''Long''),
     (''short'', Some ''Short''),
     (''object[]'', Some ''ArraySegment''),
     (''boolean[]'', Some ''BooleanArraySegment''),
     (''byte[]'', Some ''ByteArraySegment''),
     (''char[]'', Some ''CharArraySegment''),
     (''double[]'', Some ''DoubleArraySegment''),
     (''float[]'', Some ''FloatArraySegment''),
     (''int[]'', Some ''IntArraySegment''),
     (''long[]'', Some ''LongArraySegment''),
     (''short[]'', Some ''ShortArraySegment'')]"

definition types :: "string list" where
  "types = map fst type_names"

definition fn_ordinals :: "string option list" where
  "fn_ordinals = [None, Some '''', Some ''Bi'', Some ''Tri'', Some ''Tetra'']"

definition op_ordinals :: "string option list" where
  "op_ordinals = [None, Some ''Unary'', Some ''Binary'', Some ''Ternary'', Some ''Quaternary'']"

definition pos_ordinals :: "string option list" where
  "pos_ordinals = [None, Some ''first'', Some ''second'', Some ''third'', Some ''fourth'']"

definition cnt_ordinals :: "string option list" where
  "cnt_ordinals = [None, None, Some ''two'', Some ''three'', Some ''four'']"

definition in_params :: "string option list" where
  "in_params = [None, Some ''T'', Some ''U'', Some ''V'', Some ''W'']"

definition out_params :: "string option list" where
  "out_params = [None, Some ''R'', Some ''S'', Some ''Q'', Some ''P'']"

definition elem_params :: "string option list" where
  "elem_params = [None, Some ''E'', Some ''F'', Some ''G'', Some ''H'']"

definition built_ins :: "string list" where
  "built_ins =
    [''Runnable'', ''BiConsumer'', ''BiFunction'', ''BinaryOperator'', ''BiPredicate'',
     ''BooleanSupplier'', ''Consumer'', ''DoubleBinaryOperator'', ''DoubleConsumer'',
     ''DoubleFunction'', ''DoublePredicate'', ''DoubleSupplier'', ''DoubleToIntFunction'',
     ''DoubleToLongFunction'', ''DoubleUnaryOperator'', ''Function'', ''IntBinaryOperator'',
     ''IntConsumer'', ''IntFunction'', ''IntPredicate'', ''IntSupplier'',
     ''IntToDoubleFunction'', ''IntToLongFunction'', ''IntUnaryOperator'',
     ''LongBinaryOperator'', ''LongConsumer'', ''LongFunction'', ''LongPredicate'',
     ''LongSupplier'', ''LongToDoubleFunction'', ''LongToIntFunction'', ''LongUnaryOperator'',
     ''ObjDoubleConsumer'', ''ObjIntConsumer'', ''ObjLongConsumer'', ''Predicate'',
     ''Supplier'', ''ToDoubleBiFunction'', ''ToDoubleFunction'', ''ToIntBiFunction'',
     ''ToIntFunction'', ''ToLongBiFunction'', ''ToLongFunction'', ''UnaryOperator'']"

subsection \<open>The filters (lines 219 to 262)\<close>

text \<open>
  \<open>filter_input argv\<close> holds when one of the three \<^verbatim>\<open>continue\<close> statements on the
  argument tuple fires; \<open>args\<close> of the script is \<open>set argv\<close>.
\<close>

definition mixed_args :: "string list \<Rightarrow> bool" where
  "mixed_args argv =
     (length argv > 1 \<and> card (set argv) > 1
      \<and> (argv ! 0 \<noteq> ''object'' \<or> card (set (tl argv)) > 1))"

definition many_args :: "string list \<Rightarrow> bool" where
  "many_args argv = (length argv > 2 \<and> set argv \<noteq> {''object''})"

definition many_arrays :: "string list \<Rightarrow> bool" where
  "many_arrays argv = (count_if is_array argv > 1)"

definition filter_input :: "string list \<Rightarrow> bool" where
  "filter_input argv = (mixed_args argv \<or> many_args argv \<or> many_arrays argv)"

text \<open>\<open>filter_output argv ret\<close> holds when a \<^verbatim>\<open>continue\<close> of the return-type filters fires.\<close>

definition filter_output :: "string list \<Rightarrow> string \<Rightarrow> bool" where
  "filter_output argv ret =
     (if is_array ret then True
      else if any_array argv then
        ret \<notin> set [''object'', ''boolean'', ''void'', ''int'', ''long'', ''double'']
        \<and> (ret @ ''[]'') \<notin> set argv
      else if length argv > 1 \<and> ret \<notin> set [''object'', ''boolean'', ''void'']
              \<and> ret \<notin> set argv
              \<and> (length argv > 2 \<or> set argv \<noteq> {''object''}) then True
      else length argv > 2 \<and> ret \<notin> set [''object'', ''boolean''])"

subsection \<open>Name and method name (lines 264 to 318)\<close>

text \<open>\<open>for_all f xs\<close> evaluates \<open>f\<close> on each element in order and stops at the first exception.\<close>

fun for_all :: "('a \<Rightarrow> error + 'b) \<Rightarrow> 'a list \<Rightarrow> error + 'b list" where
  "for_all f [] = Inr []"
| "for_all f (x # xs) = bind (f x) (\<lambda>y. bind (for_all f xs) (\<lambda>ys. Inr (y # ys)))"

text \<open>\<^verbatim>\<open>sep.join(items)\<close>: an item that is \<^verbatim>\<open>None\<close> is a TypeError.\<close>

fun join_str :: "string \<Rightarrow> string list \<Rightarrow> string" where
  "join_str sep [] = ''''"
| "join_str sep [x] = x"
| "join_str sep (x # y # ys) = x @ sep @ join_str sep (y # ys)"

definition join :: "string \<Rightarrow> string option list \<Rightarrow> error + string" where
  "join sep items =
     (if None \<in> set items then Inl TypeError else Inr (join_str sep (map the items)))"

text \<open>\<^verbatim>\<open>"".join(("Obj" if a == "object" else type_names[a] for a in argv))\<close>\<close>

definition obj_fragments :: "string list \<Rightarrow> error + string" where
  "obj_fragments argv =
     bind (for_all (\<lambda>a. if a = ''object'' then Inr (Some ''Obj'') else dict_get type_names a) argv)
       (join '''')"

text \<open>The shared shape of the consumer, predicate and function names.\<close>

definition shape_name :: "string list \<Rightarrow> string \<Rightarrow> error + string" where
  "shape_name argv suffix =
     (if card (set argv) = 1 then
        bind (dict_get type_names (argv ! 0)) (\<lambda>t.
        bind (tuple_get fn_ordinals (length argv)) (\<lambda>ord.
        Inr (fmt t @ fmt ord @ suffix)))
      else bind (obj_fragments argv) (\<lambda>j. Inr (j @ suffix)))"

definition get_name :: "string list \<Rightarrow> string \<Rightarrow> error + (string \<times> string)" where
  "get_name argv ret =
     (if length argv = 0 then
        (if ret = ''void'' then Inr (''Runnable'', ''run'')
         else bind (dict_get type_names ret) (\<lambda>t.
              Inr (fmt t @ ''Supplier'',
                   if ret \<noteq> ''object'' then ''getAs'' @ fmt t else ''get'')))
      else if ret = ''void'' then
        bind (shape_name argv ''Consumer'') (\<lambda>n. Inr (n, ''accept''))
      else if ret \<noteq> ''object'' \<and> {ret} = set argv then
        bind (dict_get type_names (argv ! 0)) (\<lambda>t.
        bind (tuple_get op_ordinals (length argv)) (\<lambda>ord.
        bind (dict_get type_names ret) (\<lambda>r.
        Inr (fmt t @ fmt ord @ ''Operator'', ''applyAs'' @ fmt r))))
      else if ret = ''boolean'' then
        bind (shape_name argv ''Predicate'') (\<lambda>n. Inr (n, ''test''))
      else if ret = ''object'' then
        bind (shape_name argv ''Function'') (\<lambda>n. Inr (n, ''apply''))
      else
        bind (if card (set argv) = 1 then
                bind (dict_get type_names (argv ! 0)) (\<lambda>t.
                bind (dict_get type_names ret) (\<lambda>r.
                bind (tuple_get fn_ordinals (length argv)) (\<lambda>ord.
                Inr (fmt t @ ''To'' @ fmt r @ fmt ord @ ''Function''))))
              else
                bind (obj_fragments argv) (\<lambda>j.
                bind (dict_get type_names ret) (\<lambda>r.
                Inr (j @ ''To'' @ fmt r @ ''Function''))))
          (\<lambda>n. bind (dict_get type_names ret) (\<lambda>r. Inr (n, ''applyAs'' @ fmt r))))"

subsection \<open>Documentation variables and generic parameters (lines 325 to 392)\<close>

text \<open>
  Of the variables for the documentation comments, \<open>operation\<close>, \<open>performs\<close> and
  \<open>using\<close> are kept: they name the kind of interface. The five branches are those of
  lines 326 to 339.
\<close>

definition javadoc_vars :: "string list \<Rightarrow> string \<Rightarrow> string \<times> string \<times> string option" where
  "javadoc_vars argv ret =
     (if ret = ''void'' then
        (''operation'', ''performs'', if length argv > 0 then Some ''using'' else None)
      else if length argv = 0 then (''operation'', ''supplies'', None)
      else if ret \<noteq> ''object'' \<and> {ret} = set argv then (''operator'', ''applies'', Some ''to'')
      else if ret = ''boolean'' then (''predicate'', ''evaluates'', Some ''against'')
      else (''function'', ''applies'', Some ''to''))"

text \<open>\<open>p_list\<close>: the generic parameters, each with its description.\<close>

definition in_param_entry :: "string \<Rightarrow> nat \<Rightarrow> nat \<Rightarrow> nat \<Rightarrow> error + (string option \<times> string)" where
  "in_param_entry operation argc in_param_cnt n =
     bind (tuple_get in_params n) (\<lambda>p.
     bind (if in_param_cnt > 1 then bind (tuple_get pos_ordinals n) (\<lambda>q. Inr (fmt q @ '' ''))
           else Inr '''') (\<lambda>pos.
     Inr (p, ''The type of the '' @ pos
             @ (if in_param_cnt < argc then ''object-valued '' else '''')
             @ ''argument to the '' @ operation @ ''.'')))"

definition elem_param_entry :: "string \<Rightarrow> nat \<Rightarrow> nat \<Rightarrow> error + (string option \<times> string)" where
  "elem_param_entry operation elem_param_cnt n =
     bind (tuple_get elem_params n) (\<lambda>p.
     bind (if elem_param_cnt > 1 then bind (tuple_get pos_ordinals n) (\<lambda>q. Inr (fmt q @ '' ''))
           else Inr '''') (\<lambda>pos.
     Inr (p, ''The type of the elements of the '' @ pos @ ''array argument to the ''
             @ operation @ ''.'')))"

definition out_param_entry :: "string \<Rightarrow> nat \<Rightarrow> error + (string option \<times> string)" where
  "out_param_entry operation n =
     bind (tuple_get out_params n) (\<lambda>p.
     Inr (p, ''The type of the result of the '' @ operation @ ''.''))"

definition p_list :: "string list \<Rightarrow> string \<Rightarrow> string \<Rightarrow> error + (string option \<times> string) list" where
  "p_list argv ret operation =
     (let in_param_cnt = count_if (\<lambda>a. a = ''object'') argv;
          elem_param_cnt = count_if (\<lambda>a. a = ''object[]'') argv;
          out_param_cnt = (if ret = ''object'' then 1 else 0 :: nat)
      in bind (for_all (in_param_entry operation (length argv) in_param_cnt)
                 [1 ..< in_param_cnt + 1]) (\<lambda>ins.
         bind (for_all (elem_param_entry operation elem_param_cnt)
                 [1 ..< elem_param_cnt + 1]) (\<lambda>elems.
         bind (for_all (out_param_entry operation) [1 ..< out_param_cnt + 1]) (\<lambda>outs.
         Inr (ins @ elems @ outs)))))"

subsection \<open>Argument descriptors (lines 394 to 514)\<close>

text \<open>\<^verbatim>\<open>p.lower()\<close> and \<^verbatim>\<open>str(n)\<close>\<close>

definition lower :: "string \<Rightarrow> string" where
  "lower s = map (\<lambda>c. if 65 \<le> (of_char c :: nat) \<and> (of_char c :: nat) \<le> 90
                        then char_of (of_char c + 32 :: nat) else c) s"

fun str_nat :: "nat \<Rightarrow> string" where
  "str_nat n = (if n < 10 then [char_of (48 + n)]
                else str_nat (n div 10) @ [char_of (48 + n mod 10)])"

type_synonym arg_entry = "string \<times> string \<times> string \<times> string"

text \<open>
  One turn of the loop of lines 482 to 514, for the \<open>n\<close>-th row \<open>(a, suf, pos, typ)\<close> of
  the zipped iterators. All rows carry the same \<open>a\<close>, so the \<open>n\<close>-th turn is the one that
  makes the \<open>n\<close>-th call of \<^verbatim>\<open>next(e_iter)\<close>, which yields \<^verbatim>\<open>elem_params[n]\<close> followed by
  \<^verbatim>\<open>[]\<close>.
\<close>

definition seg_entries :: "string \<Rightarrow> nat \<times> string \<times> string \<times> string \<times> string
    \<Rightarrow> error + arg_entry list" where
  "seg_entries operation row =
     (case row of (n, a, suf, pos, typ) \<Rightarrow>
        bind (if a \<noteq> ''object[]'' then Inr a
              else bind (tuple_get elem_params n) (\<lambda>e. Inr (fmt e @ ''[]''))) (\<lambda>a_type.
        Inr ((a_type,
              (if is_array a then ''array'' @ suf else ''value'' @ suf),
              (if is_array a then ''arr'' @ suf else ''val'' @ suf),
              ''The '' @ pos @ typ @ ''argument to the '' @ operation @ ''.'')
             # (if is_array a then
                  [(''int'', ''fromIndex'' @ suf, ''from'' @ suf,
                    ''The start index in {@code~array'' @ suf @ ''}, inclusive.''),
                   (''int'', ''toIndex'' @ suf, ''to'' @ suf,
                    ''The end index in {@code~array'' @ suf @ ''}, exclusive.'')]
                else []))))"

text \<open>The rows of the zipped iterators when the first argument is \<^verbatim>\<open>object\<close> (lines 445 to 465).\<close>

definition obj_rows :: "string list \<Rightarrow> string \<Rightarrow> error + (arg_entry list \<times> (string \<times> string \<times> string \<times> string) list)" where
  "obj_rows argv operation =
     py_assert (length argv = 2) (py_assert (argv ! 1 \<noteq> ''object'')
       (bind (tuple_get in_params 1) (\<lambda>i1.
          let a = argv ! 1;
              typ = (if a = ''object[]'' then ''array ''
                     else if is_array a then ''{@code~'' @ take (length a - 2) a @ ''}-valued array ''
                     else ''{@code~'' @ a @ ''}-valued '')
          in Inr ([(fmt i1, ''obj'', ''obj'',
                    ''The object-valued argument to the '' @ operation @ ''.'')],
                  [(a, '''', '''', typ)]))))"

text \<open>
  The rows otherwise (lines 466 to 479). \<^verbatim>\<open>(a,) = args\<close> unpacks a set that the assert
  before it has found to have one element, which is then the first argument.
\<close>

definition same_rows :: "string list \<Rightarrow> error + (arg_entry list \<times> (string \<times> string \<times> string \<times> string) list)" where
  "same_rows argv =
     py_assert (card (set argv) = 1)
       (let a = argv ! 0;
            typ = (if is_array a then ''array '' else '''')
        in bind (if length argv = 1 then Inr [(a, '''', '''', typ)]
                 else for_all (\<lambda>n. bind (tuple_get pos_ordinals n) (\<lambda>q.
                                   Inr (a, str_nat n, fmt q @ '' '', typ)))
                        [1 ..< length argv + 1]) (\<lambda>rows.
           Inr ([], rows)))"

definition a_list :: "string list \<Rightarrow> string \<Rightarrow> string \<Rightarrow> error + arg_entry list" where
  "a_list argv ret operation =
     (let argc = length argv in
      if argc = 0 then Inr []
      else if set argv = {''object''} then
        for_all (\<lambda>(p, pos). case p of
                     None \<Rightarrow> Inl AttributeError
                   | Some t \<Rightarrow> Inr (t, lower t, lower t,
                                   ''The '' @ pos @ ''argument to the '' @ operation @ ''.''))
          (zip (take argc (tl in_params))
               (if argc > 1 then map (\<lambda>q. fmt q @ '' '') (tl pos_ordinals)
                else replicate argc ''''))
      else if (argc = 1 \<or> argc = 2) \<and> card (set argv) = 1 \<and> \<not> any_array argv then
        (if argc = 1 then
           Inr [(argv ! 0, (if {ret} = set argv then ''operand'' else ''value''), ''x'',
                 ''The argument to the '' @ operation @ ''.'')]
         else
           py_assert (argc = 2)
             (bind (tuple_get pos_ordinals 1) (\<lambda>p1.
              bind (tuple_get pos_ordinals 2) (\<lambda>p2.
              Inr [(argv ! 0, ''left'', ''x'',
                    ''The '' @ fmt p1 @ '' argument to the '' @ operation @ ''.''),
                   (argv ! 1, ''right'', ''y'',
                    ''The '' @ fmt p2 @ '' argument to the '' @ operation @ ''.'')]))))
      else
        bind (if argv ! 0 = ''object'' then obj_rows argv operation else same_rows argv)
          (\<lambda>(entries, rows).
             bind (for_all (seg_entries operation) (zip [1 ..< length rows + 1] rows)) (\<lambda>ess.
             Inr (entries @ concat ess))))"

subsection \<open>The methods (lines 516 to 873)\<close>

text \<open>
  A method is kept as its key in \<^verbatim>\<open>static_methods\<close> or \<^verbatim>\<open>instance_methods\<close> and the
  lines of Java that follow its documentation comment. The keys of one dictionary are
  pairwise different (the interface's own method is none of \<^verbatim>\<open>andThen\<close>,
  \<^verbatim>\<open>compose\<close>, \<^verbatim>\<open>and\<close>, \<^verbatim>\<open>or\<close>, \<^verbatim>\<open>negated\<close>), so a dictionary is the list of its
  items in insertion order.
\<close>

type_synonym java_method = "string \<times> string list"

text \<open>The texts shared by the derived methods (lines 563 to 585).\<close>

record texts =
  t_name :: string
  t_mthd :: string
  p_text :: string
  a_text :: string
  par_a_text :: string
  var_p_text :: string

definition var_item :: "string option \<Rightarrow> string option" where
  "var_item p =
     (if p \<in> set in_params then Some (''? super '' @ fmt p)
      else if p \<in> set out_params then Some (''? extends '' @ fmt p)
      else if p \<in> set elem_params then Some (fmt p)
      else None)"

definition angle :: "string option list \<Rightarrow> error + string" where
  "angle items = bind (join '', '' items) (\<lambda>j. Inr (''<'' @ j @ ''>''))"

definition mk_texts :: "string \<Rightarrow> string \<Rightarrow> (string option \<times> string) list \<Rightarrow> arg_entry list
    \<Rightarrow> error + texts" where
  "mk_texts name mthd pl al =
     bind (if pl \<noteq> [] then angle (map fst pl) else Inr '''') (\<lambda>pt.
     let at = join_str '', '' (map (\<lambda>(a_type, a_name, a_abbr, a_desc). a_abbr) al) in
     bind (if pl \<noteq> [] then angle (map (\<lambda>(p, d). var_item p) pl) else Inr '''') (\<lambda>vpt.
     Inr \<lparr> t_name = name, t_mthd = mthd, p_text = pt, a_text = at,
           par_a_text = (if length al = 1 then at else ''('' @ at @ '')''),
           var_p_text = vpt \<rparr>))"

text \<open>
  \<^verbatim>\<open>f"        return {lmbd};".replace("$", ...)\<close>: a lambda longer than 64 characters
  is broken after its arrow.
\<close>

definition return_line :: "string \<Rightarrow> string" where
  "return_line lmbd =
     concat (map (\<lambda>c. if c = CHR ''$''
                       then (if length lmbd > 64 then CHR 0x0A # replicate 12 CHR '' '' else '' '')
                       else [c])
                 (''        return '' @ lmbd @ '';''))"

definition identity_lines :: "texts \<Rightarrow> string list" where
  "identity_lines t =
     [''    static '' @ t_name t @ '' identity()'', ''    {'',
      return_line (par_a_text t @ '' ->$'' @ a_text t), ''    }'']"

definition negated_static_lines :: "texts \<Rightarrow> string list" where
  "negated_static_lines t =
     [''    static '' @ t_name t @ '' negated()'', ''    {'',
      return_line (par_a_text t @ '' ->$!'' @ a_text t), ''    }'']"

definition static_methods :: "texts \<Rightarrow> string list \<Rightarrow> string \<Rightarrow> java_method list" where
  "static_methods t argv ret =
     (if length argv = 1 \<and> ret \<noteq> ''object'' \<and> set argv = {ret}
      then [(''identity'', identity_lines t)] else [])
     @
     (if length argv = 1 \<and> ret = ''boolean'' \<and> set argv = {''boolean''}
      then [(''negated'', negated_static_lines t)] else [])"

text \<open>The interface's own method (lines 545 to 560).\<close>

definition own_method :: "string \<Rightarrow> string list \<Rightarrow> string \<Rightarrow> arg_entry list \<Rightarrow> error + java_method" where
  "own_method mthd argv ret al =
     bind (if ret = ''object'' then bind (tuple_get out_params 1) (\<lambda>r. Inr (fmt r))
           else Inr ret) (\<lambda>rslt.
     Inr (mthd,
          if length argv > 0 then
            [''    '' @ rslt @ '' '' @ mthd @ ''('']
            @ map (\<lambda>(a_type, a_name, a_abbr, a_desc).
                     ''        final '' @ a_type @ '' '' @ a_name @ '','') (butlast al)
            @ map (\<lambda>(a_type, a_name, a_abbr, a_desc).
                     ''        final '' @ a_type @ '' '' @ a_name @ '');'')
                (drop (length al - 1) al)
          else [''    '' @ rslt @ '' '' @ mthd @ ''();'']))"

text \<open>
  \<^verbatim>\<open>andThen\<close> (lines 623 to 728): the lines of its three forms, then the methods added to
  \<^verbatim>\<open>instance_methods\<close> and the names added to \<^verbatim>\<open>imports\<close>.
\<close>

definition and_then_action_lines :: "texts \<Rightarrow> string list" where
  "and_then_action_lines t =
     [''    default '' @ t_name t @ p_text t @ '' andThen('',
      ''        final '' @ t_name t @ var_p_text t @ '' after)'',
      ''    {'',
      ''        Objects.requireNonNull(after);'',
      ''        return '' @ par_a_text t @ '' ->'',
      ''        {'',
      ''            '' @ t_mthd t @ ''('' @ a_text t @ '');'',
      ''            after.'' @ t_mthd t @ ''('' @ a_text t @ '');'',
      ''        };'',
      ''    }'']"

definition and_then_function_lines :: "texts \<Rightarrow> string option \<Rightarrow> string option \<Rightarrow> string
    \<Rightarrow> string list" where
  "and_then_function_lines t o1 o2 p_text2 =
     [''    default <'' @ fmt o2 @ ''> '' @ t_name t @ p_text2 @ '' andThen('',
      ''        final Function<? super '' @ fmt o1 @ '', ? extends '' @ fmt o2 @ ''> after)'',
      ''    {'',
      ''        Objects.requireNonNull(after);'',
      return_line (par_a_text t @ '' ->$after.apply('' @ t_mthd t @ ''('' @ a_text t @ ''))''),
      ''    }'']"

definition and_then_operator_lines :: "texts \<Rightarrow> string list" where
  "and_then_operator_lines t =
     [''    default '' @ t_name t @ '' andThen('',
      ''        final '' @ t_name t @ '' after)'',
      ''    {'',
      ''        Objects.requireNonNull(after);'',
      return_line (par_a_text t @ '' ->$after.'' @ t_mthd t @ ''('' @ t_mthd t @ ''(''
                   @ a_text t @ ''))''),
      ''    }'']"

definition objects_import :: string where
  "objects_import = ''java.util.Objects''"

definition function_import :: string where
  "function_import = ''java.util.function.Function''"

definition and_then :: "texts \<Rightarrow> string list \<Rightarrow> string \<Rightarrow> (string option \<times> string) list
    \<Rightarrow> error + (java_method list \<times> string set)" where
  "and_then t argv ret pl =
     (if ret = ''void'' then
        Inr ([(''andThen'', and_then_action_lines t)], {objects_import})
      else if ret = ''object'' then
        bind (tuple_get out_params 1) (\<lambda>o1.
        bind (tuple_get out_params 2) (\<lambda>o2.
        py_assert (o1 \<in> set (map fst pl))
          (bind (angle (map (\<lambda>(p, d). if p \<noteq> o1 then p else o2) pl)) (\<lambda>p_text2.
           Inr ([(''andThen'', and_then_function_lines t o1 o2 p_text2)],
                {objects_import, function_import})))))
      else if length argv = 1 \<and> set argv = {ret} then
        py_assert (ret \<noteq> ''object'')
          (Inr ([(''andThen'', and_then_operator_lines t)], {objects_import}))
      else Inr ([], {}))"

text \<open>\<^verbatim>\<open>compose\<close> (lines 730 to 800).\<close>

definition compose_function_lines :: "texts \<Rightarrow> string option \<Rightarrow> string option \<Rightarrow> string
    \<Rightarrow> string list" where
  "compose_function_lines t i1 i2 p_text2 =
     [''    default <'' @ fmt i2 @ ''> '' @ t_name t @ p_text2 @ '' compose('',
      ''        final Function<? super '' @ fmt i2 @ '', ? extends '' @ fmt i1 @ ''> before)'',
      ''    {'',
      ''        Objects.requireNonNull(before);'',
      return_line (par_a_text t @ '' ->$'' @ t_mthd t @ ''(before.apply('' @ a_text t @ ''))''),
      ''    }'']"

definition compose_operator_lines :: "texts \<Rightarrow> string list" where
  "compose_operator_lines t =
     [''    default '' @ t_name t @ '' compose('',
      ''        final '' @ t_name t @ '' before)'',
      ''    {'',
      ''        Objects.requireNonNull(before);'',
      return_line (par_a_text t @ '' ->$'' @ t_mthd t @ ''(before.'' @ t_mthd t @ ''(''
                   @ a_text t @ ''))''),
      ''    }'']"

definition compose :: "texts \<Rightarrow> string list \<Rightarrow> string \<Rightarrow> (string option \<times> string) list
    \<Rightarrow> error + (java_method list \<times> string set)" where
  "compose t argv ret pl =
     (if length argv = 1 \<and> set argv = {''object''} then
        bind (tuple_get in_params 1) (\<lambda>i1.
        bind (tuple_get in_params 2) (\<lambda>i2.
        py_assert (i1 \<in> set (map fst pl))
          (bind (angle (map (\<lambda>(p, d). if p \<noteq> i1 then p else i2) pl)) (\<lambda>p_text2.
           Inr ([(''compose'', compose_function_lines t i1 i2 p_text2)],
                {objects_import, function_import})))))
      else if length argv = 1 \<and> set argv = {ret} then
        py_assert (ret \<noteq> ''object'')
          (Inr ([(''compose'', compose_operator_lines t)], {objects_import}))
      else Inr ([], {}))"

text \<open>The predicate methods \<^verbatim>\<open>and\<close>, \<^verbatim>\<open>or\<close> and \<^verbatim>\<open>negated\<close> (lines 802 to 873).\<close>

definition and_lambda :: "texts \<Rightarrow> string" where
  "and_lambda t = par_a_text t @ '' ->$'' @ t_mthd t @ ''('' @ a_text t @ '') && other.''
                  @ t_mthd t @ ''('' @ a_text t @ '')''"

definition or_lambda :: "texts \<Rightarrow> string" where
  "or_lambda t = par_a_text t @ '' ->$'' @ t_mthd t @ ''('' @ a_text t @ '') || other.''
                 @ t_mthd t @ ''('' @ a_text t @ '')''"

definition and_lines :: "texts \<Rightarrow> string list" where
  "and_lines t =
     [''    default '' @ t_name t @ p_text t @ '' and('',
      ''        final '' @ t_name t @ var_p_text t @ '' other)'',
      ''    {'',
      ''        Objects.requireNonNull(other);'',
      return_line (and_lambda t),
      ''    }'']"

definition or_lines :: "texts \<Rightarrow> string list" where
  "or_lines t =
     [''    default '' @ t_name t @ p_text t @ '' or('',
      ''        final '' @ t_name t @ var_p_text t @ '' other)'',
      ''    {'',
      ''        Objects.requireNonNull(other);'',
      return_line (or_lambda t),
      ''    }'']"

definition negated_lines :: "texts \<Rightarrow> string list" where
  "negated_lines t =
     [''    default '' @ t_name t @ p_text t @ '' negated()'',
      ''    {'',
      return_line (par_a_text t @ '' ->$!'' @ t_mthd t @ ''('' @ a_text t @ '')''),
      ''    }'']"

definition predicate_methods :: "texts \<Rightarrow> string list \<Rightarrow> string \<Rightarrow> java_method list \<times> string set" where
  "predicate_methods t argv ret =
     (if length argv > 0 \<and> ret = ''boolean'' \<and> set argv \<noteq> {''boolean''} then
        ([(''and'', and_lines t), (''or'', or_lines t), (''negated'', negated_lines t)],
         {objects_import})
      else ([], {}))"

subsection \<open>Package and summary sentence (lines 875 to 981)\<close>

definition base_pkg :: string where
  "base_pkg = ''me.dkleszyk.java.function.extra''"

definition package :: "string list \<Rightarrow> string \<Rightarrow> string" where
  "package argv ret =
     (if set argv \<subseteq> {''object'', ''int'', ''long'', ''double''}
         \<and> ret \<in> set [''object'', ''int'', ''long'', ''double'', ''boolean'', ''void'']
      then base_pkg
      else if any_array argv then base_pkg @ ''.array''
      else base_pkg @ ''.primitive'')"

text \<open>\<^verbatim>\<open>aan(s)\<close>: the empty prefix of an empty \<open>s\<close> is found in any string.\<close>

definition aan :: "string \<Rightarrow> string" where
  "aan s = (if take 1 s = [] \<or> set (take 1 s) \<subseteq> set ''AEIOUaeiou'' then ''an'' else ''a'')"

definition elem_tag :: "string \<Rightarrow> string" where
  "elem_tag a = take (length a - 2) a"

definition doc_input :: "string list \<Rightarrow> error + string" where
  "doc_input argv =
     (let argc = length argv in
      if argc = 0 then Inr ''no arguments''
      else if argc = 1 then
        Inr (if argv ! 0 = ''object'' then ''a single argument''
             else if argv ! 0 = ''object[]'' then ''an array argument with start and end indices''
             else if is_array (argv ! 0) then
               aan (argv ! 0) @ '' {@code~'' @ elem_tag (argv ! 0)
               @ ''}-valued array argument with start and end indices''
             else ''a single {@code~'' @ argv ! 0 @ ''}-valued argument'')
      else if card (set argv) = 1 then
        bind (tuple_get cnt_ordinals argc) (\<lambda>cnt.
        Inr (if argv ! 0 = ''object'' then fmt cnt @ '' arguments''
             else if argv ! 0 = ''object[]'' then
               fmt cnt @ '' array arguments, each with start and end indices''
             else if is_array (argv ! 0) then
               fmt cnt @ '' {@code~'' @ elem_tag (argv ! 0)
               @ ''}-valued array arguments, each with start and end indices''
             else fmt cnt @ '' {@code~'' @ argv ! 0 @ ''}-valued arguments''))
      else
        py_assert (argc = 2) (py_assert (argv ! 0 = ''object'') (py_assert (argv ! 1 \<noteq> ''object'')
          (Inr (''an object-valued argument and ''
                @ (if argv ! 1 = ''object[]'' then ''an array argument with start and end indices''
                   else if is_array (argv ! 1) then
                     aan (argv ! 1) @ '' {@code~'' @ elem_tag (argv ! 1)
                     @ ''}-valued array argument with start and end indices''
                   else aan (argv ! 1) @ '' {@code~'' @ argv ! 1 @ ''}-valued argument''))))))"

definition doc_output :: "string \<Rightarrow> string" where
  "doc_output ret =
     (if ret = ''void'' then ''no result''
      else if ret = ''object'' then ''a result''
      else aan ret @ '' {@code~'' @ ret @ ''}-valued result'')"

subsection \<open>One candidate, and the whole run\<close>

text \<open>
  What one turn of the innermost loop has computed when it reaches the end of its body:
  the signature, the name under which the file is written, and the parts of the file.
\<close>

record descriptor =
  d_argv :: "string list"
  d_ret :: string
  d_name :: string
  d_mthd :: string
  d_operation :: string
  d_performs :: string
  d_p_list :: "(string option \<times> string) list"
  d_a_list :: "arg_entry list"
  d_static_methods :: "java_method list"
  d_instance_methods :: "java_method list"
  d_imports :: "string set"
  d_package :: string
  d_summary :: string

text \<open>The body of the loop over \<open>ret\<close>, after the name has passed the check against the built-ins.\<close>

definition synthesize :: "string list \<Rightarrow> string \<Rightarrow> string \<Rightarrow> string \<Rightarrow> error + descriptor" where
  "synthesize argv ret name mthd =
     (case javadoc_vars argv ret of (operation, performs, using) \<Rightarrow>
        bind (p_list argv ret operation) (\<lambda>pl.
        bind (a_list argv ret operation) (\<lambda>al.
        bind (own_method mthd argv ret al) (\<lambda>own.
        bind (mk_texts name mthd pl al) (\<lambda>t.
        bind (and_then t argv ret pl) (\<lambda>(seq, imports1).
        bind (compose t argv ret pl) (\<lambda>(comp, imports2).
        case predicate_methods t argv ret of (preds, imports3) \<Rightarrow>
        bind (doc_input argv) (\<lambda>input.
        Inr \<lparr> d_argv = argv, d_ret = ret, d_name = name, d_mthd = mthd,
              d_operation = operation, d_performs = performs,
              d_p_list = pl, d_a_list = al,
              d_static_methods = static_methods t argv ret,
              d_instance_methods = own # seq @ comp @ preds,
              d_imports = imports1 \<union> imports2 \<union> imports3,
              d_package = package argv ret,
              d_summary = ''Represents '' @ aan operation @ '' '' @ operation @ '' that takes ''
                          @ input @ '' and produces '' @ doc_output ret @ ''.'' \<rparr>))))))))"

text \<open>The body of the loop over \<open>ret\<close> (lines 235 to 1007).\<close>

definition emit :: "string list \<Rightarrow> string \<Rightarrow> error + descriptor option" where
  "emit argv ret =
     (if filter_output argv ret then Inr None
      else bind (get_name argv ret) (\<lambda>(name, mthd).
           if name \<in> set built_ins then Inr None
           else bind (synthesize argv ret name mthd) (\<lambda>d. Inr (Some d))))"

text \<open>
  A \<^verbatim>\<open>for\<close> loop whose body may raise. The state is the list of the interfaces written
  so far, in the order of writing; \<^verbatim>\<open>names\<close> of the script is their names.
\<close>

fun for_each :: "('a \<Rightarrow> 's \<Rightarrow> error + 's) \<Rightarrow> 'a list \<Rightarrow> 's \<Rightarrow> error + 's" where
  "for_each body [] s = Inr s"
| "for_each body (x # xs) s = bind (body x s) (for_each body xs)"

definition ret_body :: "string list \<Rightarrow> string \<Rightarrow> descriptor list \<Rightarrow> error + descriptor list" where
  "ret_body argv ret s =
     bind (emit argv ret) (\<lambda>r. case r of None \<Rightarrow> Inr s | Some d \<Rightarrow> Inr (s @ [d]))"

definition argv_body :: "string list \<Rightarrow> descriptor list \<Rightarrow> error + descriptor list" where
  "argv_body argv s = (if filter_input argv then Inr s else for_each (ret_body argv) types s)"

text \<open>\<^verbatim>\<open>itertools.product(types[1:], repeat=argc)\<close>, in the order of its iteration.\<close>

definition candidates :: "nat \<Rightarrow> string list list" where
  "candidates argc = List.product_lists (replicate argc (tl types))"

definition argc_body :: "nat \<Rightarrow> descriptor list \<Rightarrow> error + descriptor list" where
  "argc_body argc s =
     py_assert (types ! 0 = ''void'') (for_each argv_body (candidates argc) s)"

definition run :: "error + descriptor list" where
  "run = for_each argc_body [0 ..< 4 + 1] []"

definition names :: "descriptor list \<Rightarrow> string list" where
  "names ds = map d_name ds"

subsection \<open>The interfaces a run writes\<close>

text \<open>
  The loops of \<open>run\<close> without the exceptions: what each candidate contributes when no
  turn raises. \<open>run_emitted\<close> below shows that no turn does, so that \<open>emitted\<close> is the
  list of interfaces the script writes, in order.
\<close>

definition is_ok :: "error + 'a \<Rightarrow> bool" where
  "is_ok r = (case r of Inl e \<Rightarrow> False | Inr x \<Rightarrow> True)"

definition emitted_ret :: "string list \<Rightarrow> string \<Rightarrow> descriptor list" where
  "emitted_ret argv ret = (case emit argv ret of Inr (Some d) \<Rightarrow> [d] | _ \<Rightarrow> [])"

definition emitted_argv :: "string list \<Rightarrow> descriptor list" where
  "emitted_argv argv = (if filter_input argv then [] else concat (map (emitted_ret argv) types))"

definition emit_ok :: "string list \<Rightarrow> bool" where
  "emit_ok argv = (filter_input argv \<or> list_all (\<lambda>ret. is_ok (emit argv ret)) types)"

definition emitted :: "descriptor list" where
  "emitted = concat (map (\<lambda>argc. concat (map emitted_argv (candidates argc))) [0 ..< 4 + 1])"

text \<open>The two halves of \<^verbatim>\<open>types[1:]\<close>.\<close>

definition scalars :: "string list" where
  "scalars = [''object'', ''boolean'', ''byte'', ''char'', ''double'', ''float'', ''int'',
              ''long'', ''short'']"

definition arrays :: "string list" where
  "arrays = [''object[]'', ''boolean[]'', ''byte[]'', ''char[]'', ''double[]'', ''float[]'',
             ''int[]'', ''long[]'', ''short[]'']"

text \<open>
  Four of the interfaces, written out: the turns for the signatures \<^verbatim>\<open>() -> byte\<close>,
  \<^verbatim>\<open>(byte[]) -> byte\<close>, \<^verbatim>\<open>(byte, byte) -> byte\<close> and \<^verbatim>\<open>(byte) -> boolean\<close>.
\<close>

definition byte_supplier :: descriptor where
  "byte_supplier =
     \<lparr>d_argv = [], d_ret = ''byte'', d_name = ''ByteSupplier'',
      d_mthd = ''getAsByte'', d_operation = ''operation'',
      d_performs = ''supplies'', d_p_list = [], d_a_list = [],
      d_static_methods = [],
      d_instance_methods = [(''getAsByte'', [''    byte getAsByte();''])],
      d_imports = {},
      d_package = ''me.dkleszyk.java.function.extra.primitive'',
      d_summary = ''Represents an operation that takes no arguments and produces a {@code~byte}-valued result.''\<rparr>"

definition byte_array_to_byte :: descriptor where
  "byte_array_to_byte =
     \<lparr>d_argv = [''byte[]''], d_ret = ''byte'',
      d_name = ''ByteArraySegmentToByteFunction'',
      d_mthd = ''applyAsByte'', d_operation = ''function'',
      d_performs = ''applies'', d_p_list = [],
      d_a_list =
        [(''byte[]'', ''array'', ''arr'', ''The array argument to the function.''),
         (''int'', ''fromIndex'', ''from'', ''The start index in {@code~array}, inclusive.''),
         (''int'', ''toIndex'', ''to'', ''The end index in {@code~array}, exclusive.'')],
      d_static_methods = [],
      d_instance_methods =
        [(''applyAsByte'',
          [''    byte applyAsByte('', ''        final byte[] array,'',
           ''        final int fromIndex,'', ''        final int toIndex);''])],
      d_imports = {},
      d_package = ''me.dkleszyk.java.function.extra.array'',
      d_summary = ''Represents a function that takes a {@code~byte}-valued array argument with start and end indices and produces a {@code~byte}-valued result.''\<rparr>"

definition byte_binary_operator :: descriptor where
  "byte_binary_operator =
     \<lparr>d_argv = [''byte'', ''byte''], d_ret = ''byte'',
      d_name = ''ByteBinaryOperator'', d_mthd = ''applyAsByte'',
      d_operation = ''operator'', d_performs = ''applies'',
      d_p_list = [],
      d_a_list =
        [(''byte'', ''left'', ''x'', ''The first argument to the operator.''),
         (''byte'', ''right'', ''y'', ''The second argument to the operator.'')],
      d_static_methods = [],
      d_instance_methods =
        [(''applyAsByte'',
          [''    byte applyAsByte('', ''        final byte left,'',
           ''        final byte right);''])],
      d_imports = {},
      d_package = ''me.dkleszyk.java.function.extra.primitive'',
      d_summary = ''Represents an operator that takes two {@code~byte}-valued arguments and produces a {@code~byte}-valued result.''\<rparr>"

definition byte_predicate :: descriptor where
  "byte_predicate =
     \<lparr>d_argv = [''byte''], d_ret = ''boolean'',
      d_name = ''BytePredicate'', d_mthd = ''test'',
      d_operation = ''predicate'', d_performs = ''evaluates'',
      d_p_list = [],
      d_a_list = [(''byte'', ''value'', ''x'', ''The argument to the predicate.'')],
      d_static_methods = [],
      d_instance_methods =
        [(''test'', [''    boolean test('', ''        final byte value);'']),
         (''and'',
          [''    default BytePredicate and('',
           ''        final BytePredicate other)'', ''    {'',
           ''        Objects.requireNonNull(other);'',
           ''        return x -> test(x) && other.test(x);'',
           ''    }'']),
         (''or'',
          [''    default BytePredicate or('',
           ''        final BytePredicate other)'', ''    {'',
           ''        Objects.requireNonNull(other);'',
           ''        return x -> test(x) || other.test(x);'',
           ''    }'']),
         (''negated'',
          [''    default BytePredicate negated()'', ''    {'',
           ''        return x -> !test(x);'', ''    }''])],
      d_imports = {''java.util.Objects''},
      d_package = ''me.dkleszyk.java.function.extra.primitive'',
      d_summary = ''Represents a predicate that takes a single {@code~byte}-valued argument and produces a {@code~boolean}-valued result.''\<rparr>"

section \<open>Properties\<close>

subsection \<open>Exceptions and loops\<close>

lemma bind_Inr [simp]: "bind (Inr x) f = f x"
  by (simp add: bind_def)

lemma bind_Inl [simp]: "bind (Inl e) f = Inl e"
  by (simp add: bind_def)

lemma bind_eq_Inr: "bind m f = Inr y \<longleftrightarrow> (\<exists>x. m = Inr x \<and> f x = Inr y)"
  by (cases m) simp_all

lemma for_each_append:
  "(\<And>x s. x \<in> set xs \<Longrightarrow> body x s = Inr (s @ f x))
    \<Longrightarrow> for_each body xs s = Inr (s @ concat (map f xs))"
  by (induction xs arbitrary: s) simp_all

lemma ret_body_ok: "is_ok (emit argv ret) \<Longrightarrow> ret_body argv ret s = Inr (s @ emitted_ret argv ret)"
  by (auto simp: is_ok_def ret_body_def emitted_ret_def split: sum.splits option.splits)

lemma argv_body_ok: "emit_ok argv \<Longrightarrow> argv_body argv s = Inr (s @ emitted_argv argv)"
  unfolding argv_body_def emitted_argv_def emit_ok_def
  by (auto simp: list_all_iff intro!: for_each_append ret_body_ok)

lemma types_0: "types ! 0 = ''void''"
  by (simp add: types_def type_names_def)

lemma argc_body_ok:
  "(\<And>argv. argv \<in> set (candidates argc) \<Longrightarrow> emit_ok argv)
    \<Longrightarrow> argc_body argc s = Inr (s @ concat (map emitted_argv (candidates argc)))"
  unfolding argc_body_def py_assert_def
  by (simp add: types_0 for_each_append argv_body_ok)

lemma run_ok:
  assumes "\<And>argc argv. argc < 5 \<Longrightarrow> argv \<in> set (candidates argc) \<Longrightarrow> emit_ok argv"
  shows "run = Inr emitted"
proof -
  have "for_each argc_body [0 ..< 4 + 1] []
        = Inr ([] @ concat (map (\<lambda>argc. concat (map emitted_argv (candidates argc)))
                            [0 ..< 4 + 1]))"
    by (rule for_each_append) (simp add: argc_body_ok assms)
  then show ?thesis
    by (simp add: run_def emitted_def)
qed

subsection \<open>The candidates\<close>

lemma tl_types: "tl types = scalars @ arrays"
  by (simp add: types_def type_names_def scalars_def arrays_def)

lemma list_all2_replicate:
  "list_all2 P xs (replicate n y) \<longleftrightarrow> length xs = n \<and> (\<forall>x\<in>set xs. P x y)"
  by (auto simp: list_all2_conv_all_nth all_set_conv_all_nth)

lemma in_candidates:
  "argv \<in> set (candidates n) \<longleftrightarrow> length argv = n \<and> set argv \<subseteq> set (tl types)"
  by (auto simp: candidates_def product_lists_set list_all2_replicate)

lemma distinct_tl_types: "distinct (tl types)"
  by (simp add: types_def type_names_def)

lemma distinct_candidates: "distinct (candidates n)"
  unfolding candidates_def
  by (rule distinct_product_lists) (simp add: distinct_tl_types)

lemma set_singleton_replicate: "set xs = {a} \<Longrightarrow> replicate (length xs) a = xs"
  by (rule replicate_eqI [symmetric]) auto

lemma not_singleton_set:
  assumes "replicate (length xs) a \<noteq> xs"
  shows "set xs \<noteq> {a}"
proof
  assume "set xs = {a}"
  then have "replicate (length xs) a = xs"
    by (rule set_singleton_replicate)
  with assms show False
    by simp
qed

text \<open>With more than two arguments, only the all-\<^verbatim>\<open>object\<close> tuple passes the filters.\<close>

lemma filter_input_long:
  assumes "2 < length argv" and "replicate (length argv) ''object'' \<noteq> argv"
  shows "filter_input argv"
proof -
  have "many_args argv"
    unfolding many_args_def using assms(1) not_singleton_set [OF assms(2)] by (rule conjI)
  then show ?thesis
    unfolding filter_input_def by (intro disjI2 disjI1)
qed

lemma length_1E: "length xs = 1 \<Longrightarrow> \<exists>a. xs = [a]"
  by (cases xs) auto

lemma length_2E: "length xs = 2 \<Longrightarrow> \<exists>a b. xs = [a, b]"
  by (cases xs; cases "tl xs") auto

subsection \<open>No turn of the loops raises\<close>

text \<open>
  Each of the 47 argument tuples that pass the filters is run through the loop body
  with each of the 19 return types.
\<close>

lemma ok0: "emit_ok []"
  by code_simp

lemma ok1_scalars: "list_all (\<lambda>a. emit_ok [a]) scalars"
  by code_simp

lemma ok1_arrays: "list_all (\<lambda>a. emit_ok [a]) arrays"
  by code_simp

lemma ok2_obj_scalars: "list_all (\<lambda>a. emit_ok [''object'', a]) scalars"
  by code_simp

lemma ok2_obj_arrays: "list_all (\<lambda>a. emit_ok [''object'', a]) arrays"
  by code_simp

lemma ok2_scalars: "list_all (\<lambda>a. list_all (\<lambda>b. emit_ok [a, b]) (tl types)) (tl scalars)"
  by code_simp

lemma ok2_arrays: "list_all (\<lambda>a. list_all (\<lambda>b. emit_ok [a, b]) (tl types)) arrays"
  by code_simp

lemma ok3: "emit_ok [''object'', ''object'', ''object'']"
  by code_simp

lemma ok4: "emit_ok [''object'', ''object'', ''object'', ''object'']"
  by code_simp

lemma emit_ok_1:
  assumes "a \<in> set (tl types)"
  shows "emit_ok [a]"
proof -
  from assms have "a \<in> set scalars \<or> a \<in> set arrays"
    by (simp add: tl_types)
  then show ?thesis
    using ok1_scalars ok1_arrays unfolding list_all_iff by blast
qed

lemma emit_ok_2:
  assumes "a \<in> set (tl types)" and "b \<in> set (tl types)"
  shows "emit_ok [a, b]"
proof (cases "a = hd scalars")
  case True
  from assms(2) have "b \<in> set scalars \<or> b \<in> set arrays"
    by (simp add: tl_types)
  moreover have "hd scalars = ''object''"
    by (simp add: scalars_def)
  ultimately show ?thesis
    using ok2_obj_scalars ok2_obj_arrays True unfolding list_all_iff by metis
next
  case False
  have "set scalars = insert (hd scalars) (set (tl scalars))"
    by (simp add: scalars_def)
  with assms(1) False have "a \<in> set (tl scalars) \<or> a \<in> set arrays"
    by (simp add: tl_types)
  with assms(2) show ?thesis
    using ok2_scalars ok2_arrays unfolding list_all_iff by blast
qed

lemma emit_ok_candidates:
  assumes "argc < 5" and "argv \<in> set (candidates argc)"
  shows "emit_ok argv"
proof -
  from assms(2) have len: "length argv = argc" and sub: "set argv \<subseteq> set (tl types)"
    by (simp_all add: in_candidates)
  consider "argc = 0" | "argc = 1" | "argc = 2" | "argc = 3" | "argc = 4"
    using assms(1) by linarith
  then show ?thesis
  proof cases
    case 1
    with len show ?thesis by (simp add: ok0)
  next
    case 2
    with len obtain a where "argv = [a]"
      using length_1E by blast
    with sub show ?thesis
      by (simp add: emit_ok_1)
  next
    case 3
    with len obtain a b where "argv = [a, b]"
      using length_2E by blast
    with sub show ?thesis
      by (simp add: emit_ok_2)
  next
    case 4
    show ?thesis
    proof (cases "replicate (length argv) ''object'' = argv")
      case True
      with len 4 have "[''object'', ''object'', ''object''] = argv"
        by (simp add: numeral_3_eq_3)
      then show ?thesis using ok3 by simp
    next
      case False
      with len 4 show ?thesis
        by (simp add: emit_ok_def filter_input_long)
    qed
  next
    case 5
    show ?thesis
    proof (cases "replicate (length argv) ''object'' = argv")
      case True
      with len 5 have "[''object'', ''object'', ''object'', ''object''] = argv"
        by (simp add: eval_nat_numeral)
      then show ?thesis using ok4 by simp
    next
      case False
      with len 5 show ?thesis
        by (simp add: emit_ok_def filter_input_long)
    qed
  qed
qed

theorem run_emitted: "run = Inr emitted"
  by (rule run_ok) (rule emit_ok_candidates)

lemma in_emitted_ret: "d \<in> set (emitted_ret argv ret) \<longleftrightarrow> emit argv ret = Inr (Some d)"
  by (auto simp: emitted_ret_def split: sum.splits option.splits)

lemma in_emitted_argv:
  "d \<in> set (emitted_argv argv) \<longleftrightarrow>
     \<not> filter_input argv \<and> (\<exists>ret\<in>set types. emit argv ret = Inr (Some d))"
  by (simp add: emitted_argv_def in_emitted_ret)

lemma in_emitted:
  "d \<in> set emitted \<longleftrightarrow>
     (\<exists>argc<5. \<exists>argv\<in>set (candidates argc). \<not> filter_input argv
        \<and> (\<exists>ret\<in>set types. emit argv ret = Inr (Some d)))"
  by (simp add: emitted_def in_emitted_argv Bex_def)

text \<open>Every interface of a run comes from a turn of the innermost loop that reached its end.\<close>

lemma run_member:
  assumes "run = Inr ds" and "d \<in> set ds"
  obtains argv ret where "length argv < 5" and "set argv \<subseteq> set (tl types)"
    and "\<not> filter_input argv" and "ret \<in> set types" and "emit argv ret = Inr (Some d)"
proof -
  from assms have "d \<in> set emitted"
    by (simp add: run_emitted)
  then show thesis
    using that by (auto simp: in_emitted in_candidates)
qed

lemma emitted_member:
  assumes "emit argv ret = Inr (Some d)" and "\<not> filter_input argv"
    and "length argv < 5" and "set argv \<subseteq> set (tl types)" and "ret \<in> set types"
  shows "d \<in> set emitted"
proof -
  from assms(4) have "argv \<in> set (candidates (length argv))"
    by (simp add: in_candidates)
  with assms show ?thesis
    unfolding in_emitted by blast
qed

subsection \<open>One turn of the innermost loop\<close>

lemma synthesize_record:
  assumes "synthesize argv ret name mthd = Inr d"
  shows "\<exists>pl al own t seq comp input.
           p_list argv ret (fst (javadoc_vars argv ret)) = Inr pl
         \<and> a_list argv ret (fst (javadoc_vars argv ret)) = Inr al
         \<and> own_method mthd argv ret al = Inr own
         \<and> mk_texts name mthd pl al = Inr t
         \<and> and_then t argv ret pl = Inr seq
         \<and> compose t argv ret pl = Inr comp
         \<and> doc_input argv = Inr input
         \<and> d_argv d = argv \<and> d_ret d = ret \<and> d_name d = name \<and> d_mthd d = mthd
         \<and> d_operation d = fst (javadoc_vars argv ret)
         \<and> d_performs d = fst (snd (javadoc_vars argv ret))
         \<and> d_p_list d = pl \<and> d_a_list d = al
         \<and> d_static_methods d = static_methods t argv ret
         \<and> d_instance_methods d = own # fst seq @ fst comp @ fst (predicate_methods t argv ret)
         \<and> d_package d = package argv ret"
proof -
  from assms obtain pl al own t seq comp input where
    h: "p_list argv ret (fst (javadoc_vars argv ret)) = Inr pl"
       "a_list argv ret (fst (javadoc_vars argv ret)) = Inr al"
       "own_method mthd argv ret al = Inr own"
       "mk_texts name mthd pl al = Inr t"
       "and_then t argv ret pl = Inr seq"
       "compose t argv ret pl = Inr comp"
       "doc_input argv = Inr input"
    and d: "d = \<lparr> d_argv = argv, d_ret = ret, d_name = name, d_mthd = mthd,
              d_operation = fst (javadoc_vars argv ret),
              d_performs = fst (snd (javadoc_vars argv ret)),
              d_p_list = pl, d_a_list = al,
              d_static_methods = static_methods t argv ret,
              d_instance_methods = own # fst seq @ fst comp @ fst (predicate_methods t argv ret),
              d_imports = snd seq \<union> snd comp \<union> snd (predicate_methods t argv ret),
              d_package = package argv ret,
              d_summary = ''Represents '' @ aan (fst (javadoc_vars argv ret)) @ '' ''
                          @ fst (javadoc_vars argv ret) @ '' that takes ''
                          @ input @ '' and produces '' @ doc_output ret @ ''.'' \<rparr>"
    unfolding synthesize_def split_beta bind_eq_Inr sum.inject by blast
  have "d_argv d = argv" "d_ret d = ret" "d_name d = name" "d_mthd d = mthd"
    "d_operation d = fst (javadoc_vars argv ret)"
    "d_performs d = fst (snd (javadoc_vars argv ret))"
    "d_p_list d = pl" "d_a_list d = al"
    "d_static_methods d = static_methods t argv ret"
    "d_instance_methods d = own # fst seq @ fst comp @ fst (predicate_methods t argv ret)"
    "d_package d = package argv ret"
    unfolding d by simp_all
  with h show ?thesis by blast
qed

lemma emit_SomeD:
  assumes "emit argv ret = Inr (Some d)"
  shows "\<not> filter_output argv ret \<and> d_name d \<notin> set built_ins
         \<and> (\<exists>mthd. get_name argv ret = Inr (d_name d, mthd)
                   \<and> synthesize argv ret (d_name d) mthd = Inr d)"
proof -
  from assms have nf: "\<not> filter_output argv ret"
    by (auto simp: emit_def)
  from assms nf have "bind (get_name argv ret) (\<lambda>nm.
             if fst nm \<in> set built_ins then Inr None
             else bind (synthesize argv ret (fst nm) (snd nm)) (\<lambda>d. Inr (Some d))) = Inr (Some d)"
    unfolding emit_def split_beta by simp
  then obtain nm where
    g: "get_name argv ret = Inr nm"
    and r: "(if fst nm \<in> set built_ins then Inr None
             else bind (synthesize argv ret (fst nm) (snd nm)) (\<lambda>d. Inr (Some d))) = Inr (Some d)"
    unfolding bind_eq_Inr [of "get_name argv ret"] by blast
  from r have nb: "fst nm \<notin> set built_ins"
    by (auto split: if_splits)
  with r have s: "synthesize argv ret (fst nm) (snd nm) = Inr d"
    by (auto simp: bind_eq_Inr)
  from synthesize_record[OF s] have "d_name d = fst nm"
    by blast
  with nf g nb s show ?thesis
    by (cases nm) auto
qed

lemma emit_fields:
  assumes "emit argv ret = Inr (Some d)"
  shows "d_argv d = argv" and "d_ret d = ret"
  using emit_SomeD[OF assms] synthesize_record by blast+

lemma emit_byte_supplier: "emit [] ''byte'' = Inr (Some byte_supplier)"
  by code_simp

lemma emit_byte_array_to_byte: "emit [''byte[]''] ''byte'' = Inr (Some byte_array_to_byte)"
  by code_simp

lemma byte_supplier_emitted: "byte_supplier \<in> set emitted"
  by (rule emitted_member [OF emit_byte_supplier]) (code_simp+)

lemma byte_array_to_byte_emitted: "byte_array_to_byte \<in> set emitted"
  by (rule emitted_member [OF emit_byte_array_to_byte]) (code_simp+)

subsection \<open>The keys of the method dictionaries\<close>

lemma own_method_key:
  assumes "own_method mthd argv ret al = Inr own"
  shows "fst own = mthd"
proof -
  from assms obtain rslt lines where "Inr (mthd, lines) = (Inr own :: error + java_method)"
    unfolding own_method_def bind_eq_Inr by blast
  then have "own = (mthd, lines)"
    by (simp only: sum.inject)
  then show ?thesis
    by (simp only: fst_conv)
qed

lemma py_assert_eq_Inr: "py_assert c k = Inr y \<longleftrightarrow> c \<and> k = Inr y"
  by (simp add: py_assert_def)

lemma keys_single: "seq = ([(k, ls)], S) \<Longrightarrow> map fst (fst seq) = [k]"
  by (simp only: fst_conv list.map)

lemma keys_none: "seq = ([], S) \<Longrightarrow> map fst (fst seq) = []"
  by (simp only: fst_conv list.map)

lemma and_then_keys:
  assumes "and_then t argv ret pl = Inr seq"
  shows "map fst (fst seq) =
           (if ret = ''void'' \<or> ret = ''object'' \<or> (length argv = 1 \<and> set argv = {ret})
            then [''andThen''] else [])"
proof -
  consider (v) "ret = ''void''"
    | (ob) "ret \<noteq> ''void''" "ret = ''object''"
    | (u) "ret \<noteq> ''void''" "ret \<noteq> ''object''" "length argv = 1 \<and> set argv = {ret}"
    | (n) "ret \<noteq> ''void''" "ret \<noteq> ''object''" "\<not> (length argv = 1 \<and> set argv = {ret})"
    by blast
  then show ?thesis
  proof cases
    case v
    then have c: "ret = ''void'' \<or> ret = ''object'' \<or> (length argv = 1 \<and> set argv = {ret})"
      by blast
    from assms have "seq = ([(''andThen'', and_then_action_lines t)], {objects_import})"
      unfolding and_then_def if_P [OF v] sum.inject by blast
    then show ?thesis
      unfolding if_P [OF c] by (rule keys_single)
  next
    case ob
    then have c: "ret = ''void'' \<or> ret = ''object'' \<or> (length argv = 1 \<and> set argv = {ret})"
      by blast
    from assms obtain ls where "seq = ([(''andThen'', ls)], {objects_import, function_import})"
      unfolding and_then_def if_not_P [OF ob(1)] if_P [OF ob(2)]
        bind_eq_Inr py_assert_eq_Inr sum.inject by blast
    then show ?thesis
      unfolding if_P [OF c] by (rule keys_single)
  next
    case u
    then have c: "ret = ''void'' \<or> ret = ''object'' \<or> (length argv = 1 \<and> set argv = {ret})"
      by blast
    from assms have "seq = ([(''andThen'', and_then_operator_lines t)], {objects_import})"
      unfolding and_then_def if_not_P [OF u(1)] if_not_P [OF u(2)] if_P [OF u(3)]
        py_assert_eq_Inr sum.inject by blast
    then show ?thesis
      unfolding if_P [OF c] by (rule keys_single)
  next
    case n
    then have c: "\<not> (ret = ''void'' \<or> ret = ''object'' \<or> (length argv = 1 \<and> set argv = {ret}))"
      by blast
    from assms have "seq = ([], {})"
      unfolding and_then_def if_not_P [OF n(1)] if_not_P [OF n(2)] if_not_P [OF n(3)]
        sum.inject by blast
    then show ?thesis
      unfolding if_not_P [OF c] by (rule keys_none)
  qed
qed

lemma compose_keys:
  assumes "compose t argv ret pl = Inr cm"
  shows "map fst (fst cm) =
           (if length argv = 1 \<and> (set argv = {''object''} \<or> set argv = {ret})
            then [''compose''] else [])"
proof -
  consider (ob) "length argv = 1 \<and> set argv = {''object''}"
    | (u) "\<not> (length argv = 1 \<and> set argv = {''object''})" "length argv = 1 \<and> set argv = {ret}"
    | (n) "\<not> (length argv = 1 \<and> set argv = {''object''})" "\<not> (length argv = 1 \<and> set argv = {ret})"
    by blast
  then show ?thesis
  proof cases
    case ob
    then have c: "length argv = 1 \<and> (set argv = {''object''} \<or> set argv = {ret})"
      by blast
    from assms obtain ls where "cm = ([(''compose'', ls)], {objects_import, function_import})"
      unfolding compose_def if_P [OF ob] bind_eq_Inr py_assert_eq_Inr sum.inject by blast
    then show ?thesis
      unfolding if_P [OF c] by (rule keys_single)
  next
    case u
    then have c: "length argv = 1 \<and> (set argv = {''object''} \<or> set argv = {ret})"
      by blast
    from assms have "cm = ([(''compose'', compose_operator_lines t)], {objects_import})"
      unfolding compose_def if_not_P [OF u(1)] if_P [OF u(2)] py_assert_eq_Inr sum.inject
      by blast
    then show ?thesis
      unfolding if_P [OF c] by (rule keys_single)
  next
    case n
    then have c: "\<not> (length argv = 1 \<and> (set argv = {''object''} \<or> set argv = {ret}))"
      by blast
    from assms have "cm = ([], {})"
      unfolding compose_def if_not_P [OF n(1)] if_not_P [OF n(2)] sum.inject by blast
    then show ?thesis
      unfolding if_not_P [OF c] by (rule keys_none)
  qed
qed

lemma predicate_keys:
  "map fst (fst (predicate_methods t argv ret)) =
     (if length argv > 0 \<and> ret = ''boolean'' \<and> set argv \<noteq> {''boolean''}
      then [''and'', ''or'', ''negated''] else [])"
  unfolding predicate_methods_def
  by (simp only: if_distrib [of fst] if_distrib [of "map fst"] fst_conv list.map)

lemma static_keys:
  "map fst (static_methods t argv ret) =
     (if length argv = 1 \<and> ret \<noteq> ''object'' \<and> set argv = {ret} then [''identity''] else [])
     @ (if length argv = 1 \<and> ret = ''boolean'' \<and> set argv = {''boolean''} then [''negated''] else [])"
  unfolding static_methods_def
  by (simp only: map_append if_distrib [of "map fst"] fst_conv list.map)

text \<open>The keys of \<^verbatim>\<open>instance_methods\<close> at the end of a turn.\<close>

lemma instance_keys:
  assumes "emit argv ret = Inr (Some d)"
  shows "map fst (d_instance_methods d) =
           d_mthd d
           # (if ret = ''void'' \<or> ret = ''object'' \<or> (length argv = 1 \<and> set argv = {ret})
              then [''andThen''] else [])
           @ (if length argv = 1 \<and> (set argv = {''object''} \<or> set argv = {ret})
              then [''compose''] else [])
           @ (if length argv > 0 \<and> ret = ''boolean'' \<and> set argv \<noteq> {''boolean''}
              then [''and'', ''or'', ''negated''] else [])"
proof -
  from emit_SomeD [OF assms] obtain mthd where
    s: "synthesize argv ret (d_name d) mthd = Inr d"
    by blast
  from synthesize_record [OF s] obtain pl al own t seq cm where
    o: "own_method mthd argv ret al = Inr own"
    and a: "and_then t argv ret pl = Inr seq"
    and c: "compose t argv ret pl = Inr cm"
    and m: "d_mthd d = mthd"
    and i: "d_instance_methods d = own # fst seq @ fst cm @ fst (predicate_methods t argv ret)"
    by blast
  have "map fst (d_instance_methods d)
        = fst own # map fst (fst seq) @ map fst (fst cm)
          @ map fst (fst (predicate_methods t argv ret))"
    unfolding i by (simp only: list.map map_append)
  then show ?thesis
    unfolding own_method_key [OF o] and_then_keys [OF a] compose_keys [OF c] predicate_keys m .
qed

lemma static_keys_emit:
  assumes "emit argv ret = Inr (Some d)"
  shows "map fst (d_static_methods d) =
     (if length argv = 1 \<and> ret \<noteq> ''object'' \<and> set argv = {ret} then [''identity''] else [])
     @ (if length argv = 1 \<and> ret = ''boolean'' \<and> set argv = {''boolean''} then [''negated''] else [])"
proof -
  from emit_SomeD [OF assms] obtain mthd where
    s: "synthesize argv ret (d_name d) mthd = Inr d"
    by blast
  from synthesize_record [OF s] obtain t where
    "d_static_methods d = static_methods t argv ret"
    by blast
  then show ?thesis
    by (simp only: static_keys)
qed


text \<open>The interface's own method is none of the derived ones: its name starts differently.\<close>

lemma get_name_mthd:
  assumes "get_name argv ret = Inr (n, m)"
  shows "take 2 m \<in> {''ru'', ''ge'', ''ac'', ''ap'', ''te''}"
proof (cases "length argv = 0")
  case c0: True
  show ?thesis
  proof (cases "ret = ''void''")
    case cv: True
    from assms have "m = ''run''"
      unfolding get_name_def if_P [OF c0] if_P [OF cv] sum.inject prod.inject by blast
    then show ?thesis by simp
  next
    case cv: False
    from assms obtain t where "m = (if ret \<noteq> ''object'' then ''getAs'' @ fmt t else ''get'')"
      unfolding get_name_def if_P [OF c0] if_not_P [OF cv] bind_eq_Inr sum.inject prod.inject
      by blast
    then show ?thesis by simp
  qed
next
  case c0: False
  show ?thesis
  proof (cases "ret = ''void''")
    case cv: True
    from assms have "m = ''accept''"
      unfolding get_name_def if_not_P [OF c0] if_P [OF cv] bind_eq_Inr sum.inject prod.inject
      by blast
    then show ?thesis by simp
  next
    case cv: False
    show ?thesis
    proof (cases "ret \<noteq> ''object'' \<and> {ret} = set argv")
      case cop: True
      from assms obtain r where "m = ''applyAs'' @ fmt r"
        unfolding get_name_def if_not_P [OF c0] if_not_P [OF cv] if_P [OF cop]
          bind_eq_Inr sum.inject prod.inject
        by blast
      then show ?thesis by simp
    next
      case cop: False
      show ?thesis
      proof (cases "ret = ''boolean''")
        case cb: True
        from assms have "m = ''test''"
          unfolding get_name_def if_not_P [OF c0] if_not_P [OF cv] if_not_P [OF cop]
            if_P [OF cb] bind_eq_Inr sum.inject prod.inject
          by blast
        then show ?thesis by simp
      next
        case cb: False
        show ?thesis
        proof (cases "ret = ''object''")
          case co: True
          from assms have "m = ''apply''"
            unfolding get_name_def if_not_P [OF c0] if_not_P [OF cv] if_not_P [OF cop]
              if_not_P [OF cb] if_P [OF co] bind_eq_Inr sum.inject prod.inject
            by blast
          then show ?thesis by simp
        next
          case co: False
          from assms obtain r where "m = ''applyAs'' @ fmt r"
            unfolding get_name_def if_not_P [OF c0] if_not_P [OF cv] if_not_P [OF cop]
              if_not_P [OF cb] if_not_P [OF co] bind_eq_Inr sum.inject prod.inject
            by blast
          then show ?thesis by simp
        qed
      qed
    qed
  qed
qed


lemma own_not_derived:
  assumes "emit argv ret = Inr (Some d)"
  shows "d_mthd d \<notin> {''andThen'', ''compose'', ''and'', ''or'', ''negated''}"
proof
  assume a: "d_mthd d \<in> {''andThen'', ''compose'', ''and'', ''or'', ''negated''}"
  from emit_SomeD [OF assms] obtain mthd where
    g: "get_name argv ret = Inr (d_name d, mthd)"
    and s: "synthesize argv ret (d_name d) mthd = Inr d"
    by blast
  from synthesize_record [OF s] have "d_mthd d = mthd"
    by blast
  with get_name_mthd [OF g] have t: "take 2 (d_mthd d) \<in> {''ru'', ''ge'', ''ac'', ''ap'', ''te''}"
    by (simp only:)
  from a have "take 2 (d_mthd d) \<in> {''an'', ''co'', ''or'', ''ne''}"
    by (elim insertE emptyE) simp_all
  with t show False
    by auto
qed

lemma keys_mem:
  assumes "ks = m # (if a then [''andThen''] else []) @ (if b then [''compose''] else [])
                  @ (if c then [''and'', ''or'', ''negated''] else [])"
    and "m \<notin> {''andThen'', ''compose'', ''and'', ''or'', ''negated''}"
  shows "''andThen'' \<in> set ks \<longleftrightarrow> a" and "''compose'' \<in> set ks \<longleftrightarrow> b"
    and "''and'' \<in> set ks \<longleftrightarrow> c" and "''or'' \<in> set ks \<longleftrightarrow> c" and "''negated'' \<in> set ks \<longleftrightarrow> c"
  using assms by auto

lemma emit_byte_binary_operator:
  "emit [''byte'', ''byte''] ''byte'' = Inr (Some byte_binary_operator)"
  by code_simp

lemma emit_byte_predicate: "emit [''byte''] ''boolean'' = Inr (Some byte_predicate)"
  by code_simp

lemma byte_binary_operator_emitted: "byte_binary_operator \<in> set emitted"
  by (rule emitted_member [OF emit_byte_binary_operator]) (code_simp+)

lemma byte_predicate_emitted: "byte_predicate \<in> set emitted"
  by (rule emitted_member [OF emit_byte_predicate]) (code_simp+)


lemma operation_operatorD:
  assumes "fst (javadoc_vars argv ret) = ''operator''"
  shows "length argv \<noteq> 0 \<and> ret \<noteq> ''object'' \<and> {ret} = set argv"
proof (cases "ret = ''void''")
  case cv: True
  from assms show ?thesis
    unfolding javadoc_vars_def if_P [OF cv] by simp
next
  case cv: False
  show ?thesis
  proof (cases "length argv = 0")
    case c0: True
    from assms show ?thesis
      unfolding javadoc_vars_def if_not_P [OF cv] if_P [OF c0] by simp
  next
    case c0: False
    show ?thesis
    proof (cases "ret \<noteq> ''object'' \<and> {ret} = set argv")
      case True
      with c0 show ?thesis by blast
    next
      case cop: False
      show ?thesis
      proof (cases "ret = ''boolean''")
        case cb: True
        from assms show ?thesis
          unfolding javadoc_vars_def if_not_P [OF cv] if_not_P [OF c0] if_not_P [OF cop]
            if_P [OF cb] by simp
      next
        case cb: False
        from assms show ?thesis
          unfolding javadoc_vars_def if_not_P [OF cv] if_not_P [OF c0] if_not_P [OF cop]
            if_not_P [OF cb] by simp
      qed
    qed
  qed
qed

lemma operation_predicateD:
  assumes "fst (javadoc_vars argv ret) = ''predicate''"
  shows "ret = ''boolean'' \<and> \<not> (ret \<noteq> ''object'' \<and> {ret} = set argv)"
proof (cases "ret = ''void''")
  case cv: True
  from assms show ?thesis
    unfolding javadoc_vars_def if_P [OF cv] by simp
next
  case cv: False
  show ?thesis
  proof (cases "length argv = 0")
    case c0: True
    from assms show ?thesis
      unfolding javadoc_vars_def if_not_P [OF cv] if_P [OF c0] by simp
  next
    case c0: False
    show ?thesis
    proof (cases "ret \<noteq> ''object'' \<and> {ret} = set argv")
      case cop: True
      from assms show ?thesis
        unfolding javadoc_vars_def if_not_P [OF cv] if_not_P [OF c0] if_P [OF cop] by simp
    next
      case cop: False
      show ?thesis
      proof (cases "ret = ''boolean''")
        case cb: True
        with cop show ?thesis by blast
      next
        case cb: False
        from assms show ?thesis
          unfolding javadoc_vars_def if_not_P [OF cv] if_not_P [OF c0] if_not_P [OF cop]
            if_not_P [OF cb] by simp
      qed
    qed
  qed
qed

lemma emit_operation:
  assumes "emit argv ret = Inr (Some d)"
  shows "d_operation d = fst (javadoc_vars argv ret)"
    and "d_package d = package argv ret"
proof -
  from emit_SomeD [OF assms] obtain mthd where
    s: "synthesize argv ret (d_name d) mthd = Inr d"
    by blast
  from synthesize_record [OF s]
  show "d_operation d = fst (javadoc_vars argv ret)" and "d_package d = package argv ret"
    by blast+
qed

section \<open>The claims\<close>

text \<open>
  C6. A candidate with two or more array-segment arguments is rejected by the filter on
  the argument tuple, whatever its length, its other arguments and the return type: the
  loop over the return types is not entered, the state is unchanged, and no interface of
  a run has such an argument tuple.
\<close>

theorem array_arity_rule:
  assumes "2 \<le> count_if is_array argv" and "run = Inr ds"
  shows "filter_input argv \<and> argv_body argv s = Inr s \<and> argv \<notin> d_argv ` set ds"
proof -
  from assms(1) have f: "filter_input argv"
    by (simp add: filter_input_def many_arrays_def)
  have "argv \<notin> d_argv ` set ds"
  proof
    assume "argv \<in> d_argv ` set ds"
    then obtain d where d: "d \<in> set ds" and a: "d_argv d = argv"
      by blast
    from assms(2) d obtain argv' ret where "\<not> filter_input argv'"
      and "emit argv' ret = Inr (Some d)"
      by (rule run_member)
    with a f show False
      by (simp add: emit_fields)
  qed
  with f show ?thesis
    by (simp add: argv_body_def)
qed

theorem array_arity_rule_witness:
  "2 \<le> count_if is_array [''int[]'', ''byte[]''] \<and> run = Inr emitted
   \<and> filter_input [''int[]'', ''byte[]'']
   \<and> argv_body [''int[]'', ''byte[]''] [] = Inr []
   \<and> [''int[]'', ''byte[]''] \<notin> d_argv ` set emitted"
proof -
  have h: "2 \<le> count_if is_array [''int[]'', ''byte[]'']"
    by code_simp
  show ?thesis
    using h run_emitted array_arity_rule [OF h run_emitted, of "[]"] by simp
qed

text \<open>
  C7. No interface of a run has an array-segment return type; and when an interface has
  an array-segment argument, its return type is \<^verbatim>\<open>object\<close>, \<^verbatim>\<open>boolean\<close>, \<^verbatim>\<open>void\<close>,
  \<^verbatim>\<open>int\<close>, \<^verbatim>\<open>long\<close> or \<^verbatim>\<open>double\<close>, or a type whose array-segment form is among the
  arguments.
\<close>

theorem return_type_rule:
  assumes "run = Inr ds" and "d \<in> set ds"
  shows "\<not> is_array (d_ret d)
       \<and> (any_array (d_argv d) \<longrightarrow>
            d_ret d \<in> {''object'', ''boolean'', ''void'', ''int'', ''long'', ''double''}
            \<or> d_ret d @ ''[]'' \<in> set (d_argv d))"
proof -
  from assms obtain argv ret where e: "emit argv ret = Inr (Some d)"
    by (rule run_member)
  then have "\<not> filter_output argv ret"
    using emit_SomeD by blast
  then have "\<not> is_array ret
       \<and> (any_array argv \<longrightarrow>
            ret \<in> {''object'', ''boolean'', ''void'', ''int'', ''long'', ''double''}
            \<or> ret @ ''[]'' \<in> set argv)"
    unfolding filter_output_def by (simp split: if_splits)
  with emit_fields [OF e] show ?thesis
    by simp
qed

theorem return_type_rule_witness:
  "run = Inr emitted \<and> byte_array_to_byte \<in> set emitted
   \<and> any_array (d_argv byte_array_to_byte)
   \<and> \<not> is_array (d_ret byte_array_to_byte)
   \<and> d_ret byte_array_to_byte @ ''[]'' \<in> set (d_argv byte_array_to_byte)"
proof -
  have a: "any_array (d_argv byte_array_to_byte)"
    by code_simp
  have b: "d_ret byte_array_to_byte \<notin> {''object'', ''boolean'', ''void'', ''int'', ''long'', ''double''}"
    by code_simp
  show ?thesis
    using a b run_emitted byte_array_to_byte_emitted
      return_type_rule [OF run_emitted byte_array_to_byte_emitted]
    by blast
qed

text \<open>
  C4, as the code has it. \<^verbatim>\<open>andThen\<close> is among the instance methods of an interface of a
  run exactly when its return type is \<^verbatim>\<open>void\<close> or \<^verbatim>\<open>object\<close>, or it has one argument
  whose type is the return type. An interface that supplies a \<^verbatim>\<open>byte\<close>, or an operator
  of two arguments, has no \<^verbatim>\<open>andThen\<close>.
\<close>

theorem sequencing_rule:
  assumes "run = Inr ds" and "d \<in> set ds"
  shows "''andThen'' \<in> fst ` set (d_instance_methods d) \<longleftrightarrow>
           d_ret d = ''void'' \<or> d_ret d = ''object''
           \<or> (length (d_argv d) = 1 \<and> set (d_argv d) = {d_ret d})"
proof -
  from assms obtain argv ret where e: "emit argv ret = Inr (Some d)"
    by (rule run_member)
  have "''andThen'' \<in> set (map fst (d_instance_methods d)) \<longleftrightarrow>
          ret = ''void'' \<or> ret = ''object'' \<or> (length argv = 1 \<and> set argv = {ret})"
    by (rule keys_mem(1) [OF instance_keys [OF e] own_not_derived [OF e]])
  then show ?thesis
    unfolding emit_fields [OF e] by (simp only: set_map)
qed

text \<open>
  The claim fails at \<^verbatim>\<open>ByteSupplier\<close>: a run writes it, it supplies (its \<^verbatim>\<open>performs\<close> is
  \<^verbatim>\<open>supplies\<close>), its return type is not \<^verbatim>\<open>void\<close>, and it has no \<^verbatim>\<open>andThen\<close>.
\<close>

theorem sequencing_counterexample:
  "run = Inr emitted \<and> byte_supplier \<in> set emitted
   \<and> d_performs byte_supplier = ''supplies'' \<and> d_ret byte_supplier \<noteq> ''void''
   \<and> ''andThen'' \<notin> fst ` set (d_instance_methods byte_supplier)"
proof -
  have "d_performs byte_supplier = ''supplies''" "d_ret byte_supplier \<noteq> ''void''"
    "''andThen'' \<notin> fst ` set (d_instance_methods byte_supplier)"
    by (simp_all add: byte_supplier_def)
  with run_emitted byte_supplier_emitted show ?thesis
    by blast
qed

theorem sequencing_rule_witness:
  "run = Inr emitted \<and> byte_binary_operator \<in> set emitted
   \<and> \<not> (d_ret byte_binary_operator = ''void'' \<or> d_ret byte_binary_operator = ''object''
         \<or> (length (d_argv byte_binary_operator) = 1
             \<and> set (d_argv byte_binary_operator) = {d_ret byte_binary_operator}))
   \<and> ''andThen'' \<notin> fst ` set (d_instance_methods byte_binary_operator)"
proof -
  have "\<not> (d_ret byte_binary_operator = ''void'' \<or> d_ret byte_binary_operator = ''object''
         \<or> (length (d_argv byte_binary_operator) = 1
             \<and> set (d_argv byte_binary_operator) = {d_ret byte_binary_operator}))"
    by (simp add: byte_binary_operator_def)
  with sequencing_rule [OF run_emitted byte_binary_operator_emitted]
    run_emitted byte_binary_operator_emitted
  show ?thesis
    by blast
qed
end
